theory Spec2Isabelle
  imports Main
begin

section \<open>The GOTCHA component of timemory: binding table, symbol filter, activation, dispatch\<close>

text \<open>
  This theory embeds \<^verbatim>\<open>source/timemory/components/gotcha/components.cpp\<close>: the member
  functions of the class template \<^verbatim>\<open>gotcha<Nt, BundleT, DiffT>\<close>. The model is of the build
  with \<^verbatim>\<open>TIMEMORY_USE_GOTCHA\<close> defined. Mutable statics become fields of one engine
  record that every operation takes and returns; calls to collaborators (the GOTCHA backend,
  the storage, the measurement bundle, diagnostics on the console) are appended to a log in
  the order the code makes them. The mutex of \<^verbatim>\<open>configure()\<close> and \<^verbatim>\<open>disable()\<close> is not
  modelled: operations run one after the other. The console output of \<^verbatim>\<open>is_permitted\<close>
  and of \<^verbatim>\<open>check_error\<close>, which depends on the settings and on the backend's return code
  only and changes no state, is left out.
\<close>

subsection \<open>Strings\<close>

text \<open>\<^verbatim>\<open>tolower\<close> of the C locale.\<close>

definition tolower :: "char \<Rightarrow> char" where
  "tolower c = (if 65 \<le> (of_char c :: nat) \<and> (of_char c :: nat) \<le> 90
                then char_of ((of_char c :: nat) + 32) else c)"

text \<open>\<^verbatim>\<open>std::string::find\<close>: the first position of the pattern, \<open>None\<close> for \<^verbatim>\<open>npos\<close>.\<close>

fun str_find :: "string \<Rightarrow> string \<Rightarrow> nat option" where
  "str_find [] pat = (if pat = [] then Some 0 else None)"
| "str_find (c # cs) pat =
     (if take (length pat) (c # cs) = pat then Some 0 else map_option Suc (str_find cs pat))"

lemma str_find_bound: "str_find l pat = Some p \<Longrightarrow> p + length pat \<le> length l"
proof (induction l arbitrary: p)
  case Nil
  then show ?case by (simp split: if_splits)
next
  case (Cons c cs)
  show ?case
  proof (cases "take (length pat) (c # cs) = pat")
    case True
    then have "length (take (length pat) (c # cs)) = length pat"
      by simp
    then have "length pat \<le> length (c # cs)"
      by (simp only: length_take)
    with True Cons.prems show ?thesis by simp
  next
    case False
    with Cons.prems obtain q where q: "str_find cs pat = Some q" and p: "p = Suc q"
      by auto
    from Cons.IH [OF q] p show ?thesis by simp
  qed
qed

text \<open>
  The loop \<^verbatim>\<open>while(_label.find("//") != npos) _label.erase(_label.find("//"), 1);\<close>
  of \<^verbatim>\<open>construct\<close>.
\<close>

function erase_double_slashes :: "string \<Rightarrow> string" where
  "erase_double_slashes l =
     (case str_find l ''//'' of
        None \<Rightarrow> l
      | Some p \<Rightarrow> erase_double_slashes (take p l @ drop (Suc p) l))"
  by pat_completeness auto
termination
proof (relation "measure length")
  show "wf (measure length)" by simp
next
  fix l :: string and p
  assume "str_find l ''//'' = Some p"
  then have "p + length ''//'' \<le> length l" by (rule str_find_bound)
  then show "(take p l @ drop (Suc p) l, l) \<in> measure length" by simp
qed

subsection \<open>Data model\<close>

text \<open>
  The two \<^verbatim>\<open>bool*\<close> members of a slot point, when set, at the suppression flag
  \<^verbatim>\<open>gotcha_suppression::get()\<close> and at \<^verbatim>\<open>settings::debug()\<close>.
\<close>

datatype bool_ptr = nullptr | addr_gotcha_suppression | addr_settings_debug

text \<open>
  The closures a slot stores. \<^verbatim>\<open>construct<N, ...>\<close> stores
  \<^verbatim>\<open>[_func, _priority, _tool]() { construct<N, Ret, Args...>(_func, _priority, _tool); }\<close>
  and \<^verbatim>\<open>[]() { revert<N>(); }\<close>. The declaration of \<^verbatim>\<open>gotcha_data\<close> is in a header
  outside this file; \<^verbatim>\<open>start()\<close>, \<^verbatim>\<open>stop()\<close> and \<^verbatim>\<open>disable()\<close> call the closures of
  slots that were never filled, so a new slot's closures do nothing.
\<close>

datatype closure =
    empty_closure
  | construct_closure nat string int string
  | revert_closure nat

datatype bundle_call =
    bundle_construct | bundle_start | bundle_store | audit_incoming | audit_outgoing
  | bundle_stop

text \<open>What the engine asks of its collaborators, in the order of the calls.\<close>

datatype event =
    init_storage
  | add_hash_id string
  | backend_wrap nat string
  | backend_set_priority string int
  | initializer_call
  | constructor_call nat
  | destructor_call nat
  | print_here string
  | diagnostic string bool bool
  | bundle_op string bundle_call

record gotcha_data =
  ready :: bool
  filled :: bool
  is_active :: bool
  is_finalized :: bool
  priority :: int
  binding :: "string option"
  wrap_id :: string
  tool_id :: string
  constructor :: closure
  destructor :: closure
  suppression :: bool_ptr
  debug :: bool_ptr

definition gotcha_data_init :: gotcha_data where
  "gotcha_data_init =
     \<lparr>ready = False, filled = False, is_active = False, is_finalized = False, priority = 0,
      binding = None, wrap_id = [], tool_id = [], constructor = empty_closure,
      destructor = empty_closure, suppression = nullptr, debug = nullptr\<rparr>"

text \<open>
  The statics of the class and of its member functions, and the state of the collaborators
  that the code reads: \<open>table\<close> is \<^verbatim>\<open>get_data()\<close>, an array of \<^verbatim>\<open>Nt\<close> slots;
  \<open>thread_started\<close> gives each thread its \<^verbatim>\<open>get_thread_started()\<close>;
  \<open>m_permit_list\<close> and \<open>m_reject_list\<close> are the sets that \<^verbatim>\<open>get_permit_list()()\<close> and
  \<^verbatim>\<open>get_reject_list()()\<close> return; \<open>m_initializer\<close>, the
  user's initializer, is the list of the \<^verbatim>\<open>gotcha_factory<N, ...>(func, tool, priority)\<close>
  calls it makes; the function-local statics of \<^verbatim>\<open>wrap<N, ...>\<close> and
  \<^verbatim>\<open>wrap_void<N, ...>\<close> are indexed by \<^verbatim>\<open>N\<close>. The counters are declared outside this file
  as 64-bit integers; they are unbounded here.
\<close>

record engine =
  table :: "gotcha_data list"
  started :: int
  thread_started :: "nat \<Rightarrow> int"
  is_configured :: bool
  default_ready :: bool
  m_permit_list :: "string set"
  m_reject_list :: "string set"
  m_initializer :: "(nat \<times> string \<times> string \<times> int) list"
  suppresses :: "string set"
  gotcha_suppression :: bool
  settings_debug :: bool
  storage_is_finalizing :: bool
  wrap_protect_tls_alloc :: "nat \<Rightarrow> bool"
  wrap_recursive :: "nat \<Rightarrow> bool"
  wrap_void_protect_tls_alloc :: "nat \<Rightarrow> bool"
  wrap_void_recursive :: "nat \<Rightarrow> bool"
  log :: "event list"

text \<open>
  What the instantiation fixes: whether \<^verbatim>\<open>operator_type\<close> is \<^verbatim>\<open>void\<close> (a wrapping
  gotcha) or a component (a replacing gotcha), and the \<^verbatim>\<open>demangle\<close> function of the
  utilities.
\<close>

record env =
  void_operator :: bool
  demangle :: "string \<Rightarrow> string"

definition engine_init :: "nat \<Rightarrow> engine" where
  "engine_init Nt =
     \<lparr>table = replicate Nt gotcha_data_init, started = 0, thread_started = (\<lambda>_. 0),
      is_configured = False, default_ready = False, m_permit_list = {}, m_reject_list = {},
      m_initializer = [], suppresses = {}, gotcha_suppression = False,
      settings_debug = False, storage_is_finalizing = False,
      wrap_protect_tls_alloc = (\<lambda>_. False), wrap_recursive = (\<lambda>_. False),
      wrap_void_protect_tls_alloc = (\<lambda>_. False), wrap_void_recursive = (\<lambda>_. False),
      log = []\<rparr>"

definition emit :: "event \<Rightarrow> engine \<Rightarrow> engine" where
  "emit e s = s\<lparr>log := log s @ [e]\<rparr>"

text \<open>\<^verbatim>\<open>auto& _data = get_data()[N]; _data.x = v;\<close>\<close>

definition upd :: "nat \<Rightarrow> (gotcha_data \<Rightarrow> gotcha_data) \<Rightarrow> engine \<Rightarrow> engine" where
  "upd N f s = s\<lparr>table := (table s)[N := f (table s ! N)]\<rparr>"

fun deref :: "engine \<Rightarrow> bool_ptr \<Rightarrow> bool" where
  "deref s addr_gotcha_suppression = gotcha_suppression s"
| "deref s addr_settings_debug = settings_debug s"

fun assign :: "bool_ptr \<Rightarrow> bool \<Rightarrow> engine \<Rightarrow> engine" where
  "assign addr_gotcha_suppression v s = s\<lparr>gotcha_suppression := v\<rparr>"
| "assign addr_settings_debug v s = s\<lparr>settings_debug := v\<rparr>"

subsection \<open>Suppression guard\<close>

text \<open>
  Modelled from the spec: \<^verbatim>\<open>gotcha_suppression::auto_toggle\<close>, \<^verbatim>\<open>toggle_suppress_on\<close>
  and \<^verbatim>\<open>toggle_suppress_off\<close> are declared in headers outside this file. The spec's words:
  configure and revert run "under a suppression scope", and the toggles "record whether a
  given call actually changed the flag (so that nested toggles only restore the outermost
  caller's original value -- i.e. a save/restore discipline, not a blind set)".
\<close>

definition auto_toggle_ctor :: "engine \<Rightarrow> bool \<times> engine" where
  "auto_toggle_ctor s =
     (if gotcha_suppression s then (False, s) else (True, s\<lparr>gotcha_suppression := True\<rparr>))"

definition auto_toggle_dtor :: "bool \<Rightarrow> engine \<Rightarrow> engine" where
  "auto_toggle_dtor did s =
     (if gotcha_suppression s \<and> did then s\<lparr>gotcha_suppression := False\<rparr> else s)"

definition toggle_suppress_on :: "bool_ptr \<Rightarrow> bool \<Rightarrow> engine \<Rightarrow> bool \<times> engine" where
  "toggle_suppress_on p did s =
     (if p = nullptr then (did, s)
      else if deref s p then (did, s)
      else (True, assign p True s))"

definition toggle_suppress_off :: "bool_ptr \<Rightarrow> bool \<Rightarrow> engine \<Rightarrow> bool \<times> engine" where
  "toggle_suppress_off p did s =
     (if p = nullptr then (did, s)
      else if did \<and> deref s p then (False, assign p False s)
      else (did, s))"

definition add_global_suppression :: "string \<Rightarrow> engine \<Rightarrow> engine" where
  "add_global_suppression func s = s\<lparr>suppresses := insert func (suppresses s)\<rparr>"

subsection \<open>Symbol filter\<close>

definition mpi_reject_list :: "string list" where
  "mpi_reject_list =
     [''MPI_Pcontrol'', ''MPI_T_init_thread'', ''MPI_Comm_split'', ''MPI_Abort'',
      ''MPI_Comm_split_type'']"

text \<open>The lambda \<^verbatim>\<open>tofortran\<close>; the code applies it to the five names above only.\<close>

definition tofortran :: "string \<Rightarrow> string" where
  "tofortran fort =
     (let l = map tolower fort in if last l \<noteq> CHR ''_'' then l @ ''_'' else l)"

definition is_permitted :: "env \<Rightarrow> string \<Rightarrow> engine \<Rightarrow> bool" where
  "is_permitted e func s =
     (if void_operator e
         \<and> (str_find func ''MPI_'' \<noteq> None \<or> str_find func ''mpi_'' \<noteq> None)
         \<and> list_ex (\<lambda>itr. func = itr \<or> func = tofortran itr) mpi_reject_list
      then False
      else if func \<in> m_reject_list s then False
      else if m_permit_list s \<noteq> {} \<and> func \<notin> m_permit_list s then False
      else True)"

subsection \<open>Binding table\<close>

definition revert :: "nat \<Rightarrow> engine \<Rightarrow> bool \<times> engine" where
  "revert N s0 =
     (let (did, s1) = auto_toggle_ctor s0;
          d = table s1 ! N;
          s2 = (if filled d \<and> is_active d
                then upd N (\<lambda>d. d\<lparr>ready := (if tool_id d \<in> suppresses s1 then False
                                              else default_ready s1)\<rparr>)
                       (emit (backend_set_priority (tool_id d) (- 1))
                          (upd N (\<lambda>d. d\<lparr>is_active := False\<rparr>) s1))
                else s1)
      in (filled (table s2 ! N), auto_toggle_dtor did s2))"

text \<open>The label of a slot: the demangled name, under the tool's name when one is given.\<close>

definition make_label :: "string \<Rightarrow> string \<Rightarrow> string" where
  "make_label label tool =
     (if tool \<noteq> [] \<and> str_find label (tool @ ''/'') \<noteq> Some 0
      then erase_double_slashes (tool @ ''/'' @ label)
      else label)"

text \<open>The body of \<^verbatim>\<open>if(!_data.filled) { ... }\<close> in \<^verbatim>\<open>construct\<close>.\<close>

definition fill :: "env \<Rightarrow> nat \<Rightarrow> string \<Rightarrow> int \<Rightarrow> string \<Rightarrow> engine \<Rightarrow> engine" where
  "fill e N func prio tool s =
     (let label0 = demangle e func;
          s1 = emit (add_hash_id label0) (emit (add_hash_id func) s);
          label = make_label label0 tool;
          s2 = emit (add_hash_id label) s1;
          s3 = upd N (\<lambda>d. d\<lparr>filled := True, priority := prio, tool_id := label,
                              wrap_id := func, ready := default_ready s2\<rparr>) s2;
          s4 = (if func \<in> suppresses s3
                then upd N (\<lambda>d. d\<lparr>suppression := addr_gotcha_suppression, ready := False\<rparr>) s3
                else s3);
          s5 = upd N (\<lambda>d. d\<lparr>constructor := construct_closure N func prio tool,
                              destructor := revert_closure N,
                              binding := Some (wrap_id d)\<rparr>) s4
      in emit (backend_wrap N (tool_id (table s5 ! N))) s5)"

definition construct :: "env \<Rightarrow> nat \<Rightarrow> string \<Rightarrow> int \<Rightarrow> string \<Rightarrow> engine \<Rightarrow> bool \<times> engine"
  where
  "construct e N func prio tool s0 =
     (if func = [] then (False, s0)
      else
        let (did, s1) = auto_toggle_ctor s0;
            s2 = emit init_storage s1
        in if \<not> is_permitted e func s2 then (False, auto_toggle_dtor did s2)
           else
             let s3 = (if debug (table s2 ! N) = nullptr
                       then upd N (\<lambda>d. d\<lparr>debug := addr_settings_debug\<rparr>) s2 else s2);
                 s4 = (if \<not> filled (table s3 ! N) then fill e N func prio tool s3 else s3);
                 s5 = (if \<not> is_active (table s4 ! N)
                       then emit (backend_set_priority (tool_id (table s4 ! N))
                                    (priority (table s4 ! N)))
                              (upd N (\<lambda>d. d\<lparr>is_active := True\<rparr>) s4)
                       else s4);
                 s6 = (if \<not> ready (table s5 ! N) then snd (revert N s5) else s5)
             in (filled (table s6 ! N), auto_toggle_dtor did s6))"

text \<open>Calling a stored closure.\<close>

definition run_closure :: "env \<Rightarrow> closure \<Rightarrow> engine \<Rightarrow> engine" where
  "run_closure e c s =
     (case c of
        empty_closure \<Rightarrow> s
      | construct_closure N func prio tool \<Rightarrow> snd (construct e N func prio tool s)
      | revert_closure N \<Rightarrow> snd (revert N s))"

definition get_info :: "engine \<Rightarrow> nat list" where
  "get_info s =
     foldl (\<lambda>info itr.
              [info ! 0 + (if ready itr then 1 else 0),
               info ! 1 + (if filled itr then 1 else 0),
               info ! 2 + (if is_active itr then 1 else 0),
               info ! 3 + (if is_finalized itr then 1 else 0),
               info ! 4 + (if suppression itr \<noteq> nullptr \<and> \<not> deref s (suppression itr)
                           then 1 else 0)])
       [0, 0, 0, 0, 0] (table s)"

subsection \<open>Activation\<close>

text \<open>\<^verbatim>\<open>gotcha_factory<N, Ret, Args...>(func, tool, priority)\<close> configures slot \<^verbatim>\<open>N\<close>.\<close>

definition gotcha_factory :: "env \<Rightarrow> nat \<times> string \<times> string \<times> int \<Rightarrow> engine \<Rightarrow> engine" where
  "gotcha_factory e = (\<lambda>(N, func, tool, prio) s. snd (construct e N func prio tool s))"

definition configure :: "env \<Rightarrow> engine \<Rightarrow> engine" where
  "configure e s =
     (if \<not> is_configured s
      then foldl (\<lambda>s c. gotcha_factory e c s)
             (emit initializer_call (s\<lparr>is_configured := True\<rparr>)) (m_initializer s)
      else s)"

text \<open>\<^verbatim>\<open>for(auto& itr : get_data()) if(!itr.is_finalized) itr.constructor();\<close>\<close>

definition call_constructor :: "env \<Rightarrow> engine \<Rightarrow> nat \<Rightarrow> engine" where
  "call_constructor e s i =
     (if \<not> is_finalized (table s ! i)
      then run_closure e (constructor (table s ! i)) (emit (constructor_call i) s)
      else s)"

text \<open>\<^verbatim>\<open>for(auto& itr : get_data()) if(!itr.is_finalized) itr.destructor();\<close>\<close>

definition call_destructor :: "env \<Rightarrow> engine \<Rightarrow> nat \<Rightarrow> engine" where
  "call_destructor e s i =
     (if \<not> is_finalized (table s ! i)
      then run_closure e (destructor (table s ! i)) (emit (destructor_call i) s)
      else s)"

definition start :: "env \<Rightarrow> nat \<Rightarrow> engine \<Rightarrow> engine" where
  "start e tid s0 =
     (if storage_is_finalizing s0 then s0
      else
        let n = started s0;
            t = thread_started s0 tid;
            s1 = s0\<lparr>started := n + 1, thread_started := (thread_started s0)(tid := t + 1)\<rparr>;
            s2 = (if t = 0 \<and> \<not> is_configured s1 then configure e s1 else s1);
            s3 = (if n = 0
                  then (let c = configure e s2
                        in foldl (call_constructor e) c [0..<length (table c)])
                  else s2)
        in if t = 0 then s3\<lparr>table := map (\<lambda>d. d\<lparr>ready := filled d\<rparr>) (table s3)\<rparr> else s3)"

definition stop :: "env \<Rightarrow> nat \<Rightarrow> engine \<Rightarrow> engine" where
  "stop e tid s0 =
     (let n = started s0 - 1;
          t = thread_started s0 tid - 1;
          s1 = s0\<lparr>started := n, thread_started := (thread_started s0)(tid := t)\<rparr>;
          s2 = (if t = 0 then s1\<lparr>table := map (\<lambda>d. d\<lparr>ready := False\<rparr>) (table s1)\<rparr> else s1)
      in if n = 0 then foldl (call_destructor e) s2 [0..<length (table s2)] else s2)"

text \<open>
  \<^verbatim>\<open>for(auto& itr : get_data()) if(!itr.is_finalized) { itr.is_finalized = true;
  itr.destructor(); }\<close>
\<close>

definition finalize_slot :: "env \<Rightarrow> engine \<Rightarrow> nat \<Rightarrow> engine" where
  "finalize_slot e s i =
     (if \<not> is_finalized (table s ! i)
      then (let s1 = upd i (\<lambda>d. d\<lparr>is_finalized := True\<rparr>) s
            in run_closure e (destructor (table s1 ! i)) (emit (destructor_call i) s1))
      else s)"

definition disable :: "env \<Rightarrow> engine \<Rightarrow> engine" where
  "disable e s =
     (if is_configured s
      then (let s1 = s\<lparr>is_configured := False\<rparr>
            in foldl (finalize_slot e) s1 [0..<length (table s1)])
      else s)"

subsection \<open>Call dispatcher\<close>

text \<open>
  The statements of \<^verbatim>\<open>wrap\<close> and \<^verbatim>\<open>wrap_void\<close> before the real function is invoked
  (from \<^verbatim>\<open>_data.ready = false\<close> to \<^verbatim>\<open>_data.ready = true\<close>) and after it; they are the
  same in both functions. The locals \<^verbatim>\<open>did_data_toggle\<close> and \<^verbatim>\<open>did_glob_toggle\<close> and the
  identifier the bundle was built with are passed from the first to the second.
\<close>

definition wrap_enter :: "nat \<Rightarrow> engine \<Rightarrow> (bool \<times> bool \<times> string) \<times> engine" where
  "wrap_enter N s0 =
     (let s1 = upd N (\<lambda>d. d\<lparr>ready := False\<rparr>) s0;
          (did_data, s2) = toggle_suppress_on (suppression (table s1 ! N)) False s1;
          (did_glob, s3) = toggle_suppress_on addr_gotcha_suppression False s2;
          b = tool_id (table s3 ! N);
          s4 = emit (bundle_op b audit_incoming) (emit (bundle_op b bundle_store)
                 (emit (bundle_op b bundle_start) (emit (bundle_op b bundle_construct) s3)));
          (did_glob', s5) = toggle_suppress_off addr_gotcha_suppression did_glob s4
      in ((did_data, did_glob', b), upd N (\<lambda>d. d\<lparr>ready := True\<rparr>) s5))"

definition wrap_exit :: "nat \<Rightarrow> bool \<times> bool \<times> string \<Rightarrow> engine \<Rightarrow> engine" where
  "wrap_exit N = (\<lambda>(did_data, did_glob, b) s0.
     let s1 = upd N (\<lambda>d. d\<lparr>ready := False\<rparr>) s0;
         (did_glob', s2) = toggle_suppress_on addr_gotcha_suppression did_glob s1;
         s3 = emit (bundle_op b bundle_stop) (emit (bundle_op b audit_outgoing) s2);
         (did_glob'', s4) = toggle_suppress_off addr_gotcha_suppression did_glob' s3;
         (did_data', s5) = toggle_suppress_off (suppression (table s4 ! N)) did_data s4
     in upd N (\<lambda>d. d\<lparr>ready := True\<rparr>) s5)"

text \<open>
  \<^verbatim>\<open>wrap<N, Ret, Args...>(_args...)\<close>. \<open>func\<close> is the pointer that
  \<^verbatim>\<open>gotcha_get_wrappee\<close> resolves, \<open>None\<close> for a null pointer; the real function may
  change the engine (it may call wrapped functions itself). \<open>dflt\<close> is \<^verbatim>\<open>Ret{}\<close>.
\<close>

definition wrap ::
  "nat \<Rightarrow> ('a \<Rightarrow> engine \<Rightarrow> 'r \<times> engine) option \<Rightarrow> 'r \<Rightarrow> 'a \<Rightarrow> engine \<Rightarrow> 'r \<times> engine"
  where
  "wrap N func dflt args s0 =
     (case func of
        None \<Rightarrow>
          (dflt, emit (print_here (''nullptr to original function! wrappee: ''
                                    @ tool_id (table s0 ! N))) s0)
      | Some f \<Rightarrow>
          if is_finalized (table s0 ! N) \<or> wrap_protect_tls_alloc s0 N then f args s0
          else
            let s1 = s0\<lparr>wrap_protect_tls_alloc := (wrap_protect_tls_alloc s0)(N := True)\<rparr>;
                suppress = (gotcha_suppression s1
                            \<or> (suppression (table s1 ! N) \<noteq> nullptr
                                \<and> deref s1 (suppression (table s1 ! N))));
                s2 = s1\<lparr>wrap_protect_tls_alloc := (wrap_protect_tls_alloc s1)(N := False)\<rparr>
            in if \<not> ready (table s2 ! N) \<or> suppress
               then
                 let s3 = s2\<lparr>wrap_protect_tls_alloc := (wrap_protect_tls_alloc s2)(N := True)\<rparr>;
                     s4 = s3\<lparr>wrap_protect_tls_alloc := (wrap_protect_tls_alloc s3)(N := False)\<rparr>;
                     s5 = (if \<not> wrap_recursive s4 N \<and> debug (table s4 ! N) \<noteq> nullptr
                               \<and> deref s4 (debug (table s4 ! N))
                           then
                             (let s' = emit (diagnostic (tool_id (table s4 ! N))
                                               (ready (table s4 ! N)) suppress)
                                         (s4\<lparr>wrap_recursive := (wrap_recursive s4)(N := True)\<rparr>)
                              in s'\<lparr>wrap_recursive := (wrap_recursive s')(N := False)\<rparr>)
                           else s4)
                 in f args s5
               else
                 let (did, s3) = wrap_enter N s2;
                     (ret, s4) = f args s3
                 in (ret, wrap_exit N did s4))"

text \<open>\<^verbatim>\<open>wrap_void<N, Args...>(_args...)\<close>, with statics of its own.\<close>

definition wrap_void ::
  "nat \<Rightarrow> ('a \<Rightarrow> engine \<Rightarrow> engine) option \<Rightarrow> 'a \<Rightarrow> engine \<Rightarrow> engine"
  where
  "wrap_void N func args s0 =
     (case func of
        None \<Rightarrow>
          emit (print_here (''nullptr to original function! wrappee: ''
                            @ tool_id (table s0 ! N))) s0
      | Some f \<Rightarrow>
          if is_finalized (table s0 ! N) \<or> wrap_void_protect_tls_alloc s0 N then f args s0
          else
            let s1 = s0\<lparr>wrap_void_protect_tls_alloc :=
                          (wrap_void_protect_tls_alloc s0)(N := True)\<rparr>;
                suppress = (gotcha_suppression s1
                            \<or> (suppression (table s1 ! N) \<noteq> nullptr
                                \<and> deref s1 (suppression (table s1 ! N))));
                s2 = s1\<lparr>wrap_void_protect_tls_alloc :=
                          (wrap_void_protect_tls_alloc s1)(N := False)\<rparr>
            in if \<not> ready (table s2 ! N) \<or> suppress
               then
                 let s3 = s2\<lparr>wrap_void_protect_tls_alloc :=
                               (wrap_void_protect_tls_alloc s2)(N := True)\<rparr>;
                     s4 = s3\<lparr>wrap_void_protect_tls_alloc :=
                               (wrap_void_protect_tls_alloc s3)(N := False)\<rparr>;
                     s5 = (if \<not> wrap_void_recursive s4 N \<and> debug (table s4 ! N) \<noteq> nullptr
                               \<and> deref s4 (debug (table s4 ! N))
                           then
                             (let s' = emit (diagnostic (tool_id (table s4 ! N))
                                               (ready (table s4 ! N)) suppress)
                                         (s4\<lparr>wrap_void_recursive :=
                                               (wrap_void_recursive s4)(N := True)\<rparr>)
                              in s'\<lparr>wrap_void_recursive := (wrap_void_recursive s')(N := False)\<rparr>)
                           else s4)
                 in f args s5
               else
                 let (did, s3) = wrap_enter N s2
                 in wrap_exit N did (f args s3))"

subsection \<open>Measures on the log\<close>

text \<open>The installations of a binding and the calls of destructor closures, in order.\<close>

fun is_backend_wrap :: "event \<Rightarrow> bool" where
  "is_backend_wrap (backend_wrap N l) = True"
| "is_backend_wrap ev = False"

fun is_destructor_call :: "event \<Rightarrow> bool" where
  "is_destructor_call (destructor_call i) = True"
| "is_destructor_call ev = False"

fun is_bundle_op :: "event \<Rightarrow> bool" where
  "is_bundle_op (bundle_op b c) = True"
| "is_bundle_op ev = False"

definition installs :: "engine \<Rightarrow> event list" where
  "installs s = filter is_backend_wrap (log s)"

definition destructor_calls :: "engine \<Rightarrow> event list" where
  "destructor_calls s = filter is_destructor_call (log s)"

definition instrumentation :: "engine \<Rightarrow> event list" where
  "instrumentation s = filter is_bundle_op (log s)"

definition wrapping_env :: env where
  "wrapping_env = \<lparr>void_operator = True, demangle = (\<lambda>name. name)\<rparr>"

definition replacing_env :: env where
  "replacing_env = \<lparr>void_operator = False, demangle = (\<lambda>name. name)\<rparr>"

text \<open>
  \<open>starts\<close> and \<open>stops\<close> run \<^verbatim>\<open>start()\<close> and \<^verbatim>\<open>stop()\<close> once for each entry of a
  list, on the thread the entry names. \<open>pending_destructors\<close> is one destructor call for
  each slot that is not finalized, in the order of the slots.
\<close>

definition starts :: "env \<Rightarrow> nat list \<Rightarrow> engine \<Rightarrow> engine" where
  "starts e tids s = foldl (\<lambda>s tid. start e tid s) s tids"

definition stops :: "env \<Rightarrow> nat list \<Rightarrow> engine \<Rightarrow> engine" where
  "stops e tids s = foldl (\<lambda>s tid. stop e tid s) s tids"

definition pending_destructors :: "engine \<Rightarrow> event list" where
  "pending_destructors s =
     map destructor_call (filter (\<lambda>i. \<not> is_finalized (table s ! i)) [0..<length (table s)])"

text \<open>
  What decides when destructors run: the global counter, whether the storage is
  finalizing, which slots are finalized, and the destructor calls made so far.
\<close>

definition lifecycle :: "engine \<Rightarrow> int \<times> bool \<times> bool list \<times> event list" where
  "lifecycle s =
     (started s, storage_is_finalizing s, map is_finalized (table s), destructor_calls s)"

text \<open>
  Whether a call through a slot is suppressed, as \<^verbatim>\<open>wrap\<close> computes \<^verbatim>\<open>_suppress\<close>.
\<close>

definition currently_suppressed :: "engine \<Rightarrow> gotcha_data \<Rightarrow> bool" where
  "currently_suppressed s d \<longleftrightarrow>
     gotcha_suppression s \<or> (suppression d \<noteq> nullptr \<and> deref s (suppression d))"

section \<open>Properties\<close>

subsection \<open>Symbol filter\<close>

lemma tofortran_names:
  "tofortran ''MPI_Pcontrol'' = ''mpi_pcontrol_''"
  "tofortran ''MPI_T_init_thread'' = ''mpi_t_init_thread_''"
  "tofortran ''MPI_Comm_split'' = ''mpi_comm_split_''"
  "tofortran ''MPI_Abort'' = ''mpi_abort_''"
  "tofortran ''MPI_Comm_split_type'' = ''mpi_comm_split_type_''"
  by code_simp+

text \<open>
  C2, as the code has it. In a wrapping gotcha (\<^verbatim>\<open>operator_type\<close> is \<^verbatim>\<open>void\<close>) every name
  of the built-in list, and every lower-case form of one with a trailing underscore, is
  refused whatever the permit list and the reject list hold.
\<close>

theorem deny_list_wrapping:
  assumes "void_operator e"
    and "func \<in> set mpi_reject_list \<or> func \<in> tofortran ` set mpi_reject_list"
  shows "\<not> is_permitted e func s"
  using assms
  by (auto simp add: is_permitted_def mpi_reject_list_def tofortran_names)

theorem deny_list_wrapping_witness:
  "\<not> is_permitted wrapping_env ''mpi_abort_''
       ((engine_init 1)\<lparr>m_permit_list := {''mpi_abort_''}\<rparr>)"
  using deny_list_wrapping
    [of wrapping_env "''mpi_abort_''" "(engine_init 1)\<lparr>m_permit_list := {''mpi_abort_''}\<rparr>"]
  by (simp add: wrapping_env_def mpi_reject_list_def tofortran_names)

text \<open>
  C2 as stated fails in a replacing gotcha (\<^verbatim>\<open>operator_type\<close> is a component): the
  built-in list is skipped, and \<^verbatim>\<open>MPI_Abort\<close> on the permit list is permitted.
\<close>

theorem deny_list_replacing_counterexample:
  "is_permitted replacing_env ''MPI_Abort''
     ((engine_init 1)\<lparr>m_permit_list := {''MPI_Abort''}\<rparr>)"
  by (simp add: is_permitted_def replacing_env_def engine_init_def)

subsection \<open>Binding table\<close>

text \<open>
  C7. \<^verbatim>\<open>construct\<close> with an empty symbol name returns false and leaves the whole engine as
  it was: no slot field changes and no collaborator is called.
\<close>

theorem construct_empty_symbol:
  "construct e N [] prio tool s = (False, s)"
  by (simp add: construct_def)

theorem construct_empty_symbol_witness:
  "construct wrapping_env 0 [] 0 ''tool'' (engine_init 1) = (False, engine_init 1)"
  using construct_empty_symbol [of wrapping_env 0 0 "''tool''" "engine_init 1"] by simp

lemma revert_inactive:
  "\<not> (filled (table s ! N) \<and> is_active (table s ! N))
   \<Longrightarrow> revert N s = (filled (table s ! N), s)"
  by (cases "gotcha_suppression s")
     (auto simp add: revert_def auto_toggle_ctor_def auto_toggle_dtor_def Let_def)

lemma revert_deactivates:
  assumes "N < length (table s)"
  shows "\<not> (filled (table (snd (revert N s)) ! N) \<and> is_active (table (snd (revert N s)) ! N))"
  using assms
  by (cases "gotcha_suppression s")
     (auto simp add: revert_def auto_toggle_ctor_def auto_toggle_dtor_def Let_def upd_def
        emit_def)

lemma revert_result:
  assumes "N < length (table s)"
  shows "fst (revert N s) = filled (table (snd (revert N s)) ! N)"
  using assms
  by (cases "gotcha_suppression s")
     (auto simp add: revert_def auto_toggle_ctor_def auto_toggle_dtor_def Let_def upd_def
        emit_def)

text \<open>
  C8. \<^verbatim>\<open>revert<N>\<close>, for \<^verbatim>\<open>N < Nt\<close> as its \<^verbatim>\<open>static_assert\<close> demands, is
  idempotent: a second call returns what the first returned and leaves the engine as the
  first left it; on a slot that is not active it changes nothing and returns the slot's
  \<^verbatim>\<open>filled\<close>.
\<close>

theorem revert_idempotent:
  assumes "N < length (table s)"
  shows "revert N (snd (revert N s)) = revert N s
         \<and> (\<not> is_active (table s ! N) \<longrightarrow> revert N s = (filled (table s ! N), s))"
proof
  have "revert N (snd (revert N s))
          = (filled (table (snd (revert N s)) ! N), snd (revert N s))"
    using revert_deactivates [OF assms] by (rule revert_inactive)
  also have "\<dots> = revert N s"
    using revert_result [OF assms] by (simp add: prod_eq_iff)
  finally show "revert N (snd (revert N s)) = revert N s" .
next
  show "\<not> is_active (table s ! N) \<longrightarrow> revert N s = (filled (table s ! N), s)"
    by (simp add: revert_inactive)
qed

theorem revert_idempotent_witness:
  "revert 0 (snd (revert 0 ((engine_init 1)\<lparr>table :=
       [gotcha_data_init\<lparr>filled := True, is_active := True\<rparr>]\<rparr>)))
   = revert 0 ((engine_init 1)\<lparr>table :=
       [gotcha_data_init\<lparr>filled := True, is_active := True\<rparr>]\<rparr>)
   \<and> revert 0 (engine_init 1) = (False, engine_init 1)"
  using revert_idempotent [of 0 "(engine_init 1)\<lparr>table :=
       [gotcha_data_init\<lparr>filled := True, is_active := True\<rparr>]\<rparr>"]
    revert_idempotent [of 0 "engine_init 1"]
  by (simp add: engine_init_def gotcha_data_init_def)

subsection \<open>Call dispatcher\<close>

text \<open>
  C5, as the code has it. With a null pointer to the real function, \<^verbatim>\<open>wrap\<close> returns
  \<^verbatim>\<open>Ret{}\<close> and \<^verbatim>\<open>wrap_void\<close> returns; the call prints one message and changes nothing
  else: no slot field, no suppression flag, and no call to the bundle. The message is
  printed by every such call: a second call through the same slot prints it again.
\<close>

theorem wrap_null_pointer:
  "wrap N None dflt args s
     = (dflt, s\<lparr>log := log s @ [print_here (''nullptr to original function! wrappee: ''
                                            @ tool_id (table s ! N))]\<rparr>)
   \<and> wrap_void N None args s
     = s\<lparr>log := log s @ [print_here (''nullptr to original function! wrappee: ''
                                     @ tool_id (table s ! N))]\<rparr>
   \<and> instrumentation (snd (wrap N None dflt args s)) = instrumentation s
   \<and> instrumentation (wrap_void N None args s) = instrumentation s
   \<and> log (snd (wrap N None dflt args (snd (wrap N None dflt args s))))
     = log s @ [print_here (''nullptr to original function! wrappee: ''
                             @ tool_id (table s ! N)),
                print_here (''nullptr to original function! wrappee: ''
                             @ tool_id (table s ! N))]
   \<and> log (wrap_void N None args (wrap_void N None args s))
     = log s @ [print_here (''nullptr to original function! wrappee: ''
                             @ tool_id (table s ! N)),
                print_here (''nullptr to original function! wrappee: ''
                             @ tool_id (table s ! N))]"
  by (simp add: wrap_def wrap_void_def emit_def instrumentation_def)

theorem wrap_null_pointer_witness:
  "wrap 0 None (0::int) (7::int) (engine_init 1)
     = (0, (engine_init 1)\<lparr>log := [print_here ''nullptr to original function! wrappee: '']\<rparr>)
   \<and> wrap_void 0 None (7::int) (engine_init 1)
     = (engine_init 1)\<lparr>log := [print_here ''nullptr to original function! wrappee: '']\<rparr>"
  using wrap_null_pointer [of 0 "0::int" "7::int" "engine_init 1"]
  by (simp add: engine_init_def gotcha_data_init_def)

text \<open>
  C5 as stated fails where it says the condition is logged once: neither function keeps a
  flag for it, and two calls through slot 0 of a new engine with a null pointer leave two
  messages in the log.
\<close>

theorem wrap_null_pointer_twice_counterexample:
  "log (snd (wrap 0 None (0::int) (7::int)
              (snd (wrap 0 None (0::int) (7::int) (engine_init 1)))))
     = [print_here ''nullptr to original function! wrappee: '',
        print_here ''nullptr to original function! wrappee: '']
   \<and> log (wrap_void 0 None (7::int) (wrap_void 0 None (7::int) (engine_init 1)))
     = [print_here ''nullptr to original function! wrappee: '',
        print_here ''nullptr to original function! wrappee: '']"
  by (simp add: wrap_def wrap_void_def emit_def engine_init_def gotcha_data_init_def)

lemma wrap_passthrough_aux:
  assumes "\<not> is_finalized (table s ! N)"
    and "\<not> ready (table s ! N) \<or> currently_suppressed s (table s ! N)"
  shows "wrap N (Some f) dflt args s =
           f args (if \<not> wrap_protect_tls_alloc s N \<and> \<not> wrap_recursive s N
                      \<and> debug (table s ! N) \<noteq> nullptr \<and> deref s (debug (table s ! N))
                   then emit (diagnostic (tool_id (table s ! N)) (ready (table s ! N))
                                (currently_suppressed s (table s ! N))) s
                   else s)"
proof (cases "wrap_protect_tls_alloc s N")
  case True
  then show ?thesis by (simp add: wrap_def)
next
  case False
  then have idem: "(wrap_protect_tls_alloc s)(N := False) = wrap_protect_tls_alloc s"
    by (simp add: fun_upd_idem_iff)
  show ?thesis
  proof (cases "wrap_recursive s N")
    case True
    with False assms idem show ?thesis
      by (cases "suppression (table s ! N)")
         (auto simp add: wrap_def Let_def currently_suppressed_def)
  next
    case nrec: False
    then have idem': "(wrap_recursive s)(N := False) = wrap_recursive s"
      by (simp add: fun_upd_idem_iff)
    with False nrec assms idem show ?thesis
      by (cases "suppression (table s ! N)"; cases "debug (table s ! N)")
         (auto simp add: wrap_def Let_def emit_def currently_suppressed_def)
  qed
qed

lemma wrap_void_passthrough_aux:
  assumes "\<not> is_finalized (table s ! N)"
    and "\<not> ready (table s ! N) \<or> currently_suppressed s (table s ! N)"
  shows "wrap_void N (Some f) args s =
           f args (if \<not> wrap_void_protect_tls_alloc s N \<and> \<not> wrap_void_recursive s N
                      \<and> debug (table s ! N) \<noteq> nullptr \<and> deref s (debug (table s ! N))
                   then emit (diagnostic (tool_id (table s ! N)) (ready (table s ! N))
                                (currently_suppressed s (table s ! N))) s
                   else s)"
proof (cases "wrap_void_protect_tls_alloc s N")
  case True
  then show ?thesis by (simp add: wrap_void_def)
next
  case False
  then have idem:
    "(wrap_void_protect_tls_alloc s)(N := False) = wrap_void_protect_tls_alloc s"
    by (simp add: fun_upd_idem_iff)
  show ?thesis
  proof (cases "wrap_void_recursive s N")
    case True
    with False assms idem show ?thesis
      by (cases "suppression (table s ! N)")
         (auto simp add: wrap_void_def Let_def currently_suppressed_def)
  next
    case nrec: False
    then have idem': "(wrap_void_recursive s)(N := False) = wrap_void_recursive s"
      by (simp add: fun_upd_idem_iff)
    with False nrec assms idem show ?thesis
      by (cases "suppression (table s ! N)"; cases "debug (table s ! N)")
         (auto simp add: wrap_void_def Let_def emit_def currently_suppressed_def)
  qed
qed

text \<open>
  C10. When the slot is not finalized, the pointer to the real function is not null, and
  the slot is not ready or suppression is in effect, \<^verbatim>\<open>wrap\<close> and \<^verbatim>\<open>wrap_void\<close> are the
  real function on the same arguments: it runs on an engine whose slots, counters, flags
  and statics are those of the call (the log alone may hold one more line, the diagnostic
  printed when debugging is on), and its result and the engine it leaves are returned as
  they are.
\<close>

theorem wrap_passthrough:
  assumes "\<not> is_finalized (table s ! N)"
    and "\<not> ready (table s ! N) \<or> currently_suppressed s (table s ! N)"
  shows "wrap N (Some f) dflt args s =
           f args (if \<not> wrap_protect_tls_alloc s N \<and> \<not> wrap_recursive s N
                      \<and> debug (table s ! N) \<noteq> nullptr \<and> deref s (debug (table s ! N))
                   then s\<lparr>log := log s @ [diagnostic (tool_id (table s ! N))
                            (ready (table s ! N)) (currently_suppressed s (table s ! N))]\<rparr>
                   else s)
       \<and> wrap_void N (Some g) args s =
           g args (if \<not> wrap_void_protect_tls_alloc s N \<and> \<not> wrap_void_recursive s N
                      \<and> debug (table s ! N) \<noteq> nullptr \<and> deref s (debug (table s ! N))
                   then s\<lparr>log := log s @ [diagnostic (tool_id (table s ! N))
                            (ready (table s ! N)) (currently_suppressed s (table s ! N))]\<rparr>
                   else s)"
  using wrap_passthrough_aux [OF assms, of f dflt args]
    wrap_void_passthrough_aux [OF assms, of g args]
  by (simp add: emit_def)

theorem wrap_passthrough_witness:
  "wrap 0 (Some (\<lambda>a s. (a + 1, s))) 0 (7::int) (engine_init 1) = (8, engine_init 1)
   \<and> wrap_void 0 (Some (\<lambda>a s. s)) (7::int) (engine_init 1) = engine_init 1"
  using wrap_passthrough
    [where s = "engine_init 1" and N = 0 and f = "\<lambda>a s. (a + 1, s)" and dflt = 0
       and args = "7::int" and g = "\<lambda>a s. s"]
  by (simp add: engine_init_def gotcha_data_init_def)

subsection \<open>Diagnostics\<close>

lemma get_info_foldl:
  "foldl (\<lambda>info itr.
              [info ! 0 + (if ready itr then 1 else 0),
               info ! 1 + (if filled itr then 1 else 0),
               info ! 2 + (if is_active itr then 1 else 0),
               info ! 3 + (if is_finalized itr then 1 else 0),
               info ! 4 + (if suppression itr \<noteq> nullptr \<and> \<not> deref s (suppression itr)
                           then 1 else 0)])
       [a, b, c, d, e] xs
   = [a + length (filter ready xs), b + length (filter filled xs),
      c + length (filter is_active xs), d + length (filter is_finalized xs),
      e + length (filter (\<lambda>itr. suppression itr \<noteq> nullptr \<and> \<not> deref s (suppression itr))
                    xs)]"
  by (induction xs arbitrary: a b c d e) simp_all

text \<open>
  C9, as the code has it. \<^verbatim>\<open>get_info\<close> returns five counts over the slots: those that
  are ready, filled, active and finalized, and fifth those that hold a suppression
  reference whose flag is not raised at the time of the call.
\<close>

theorem get_info_counts:
  "get_info s =
     [length (filter ready (table s)), length (filter filled (table s)),
      length (filter is_active (table s)), length (filter is_finalized (table s)),
      length (filter (\<lambda>itr. suppression itr \<noteq> nullptr \<and> \<not> deref s (suppression itr))
                (table s))]"
  unfolding get_info_def get_info_foldl by simp

theorem get_info_counts_witness:
  "get_info ((engine_init 3)\<lparr>table := [gotcha_data_init\<lparr>ready := True, filled := True,
        is_active := True\<rparr>, gotcha_data_init\<lparr>filled := True, is_finalized := True,
        suppression := addr_gotcha_suppression\<rparr>, gotcha_data_init]\<rparr>) = [1, 2, 1, 1, 1]"
  using get_info_counts [of "(engine_init 3)\<lparr>table := [gotcha_data_init\<lparr>ready := True,
        filled := True, is_active := True\<rparr>, gotcha_data_init\<lparr>filled := True,
        is_finalized := True, suppression := addr_gotcha_suppression\<rparr>, gotcha_data_init]\<rparr>"]
  by (simp add: engine_init_def gotcha_data_init_def)

text \<open>
  C9 as stated fails. After \<^verbatim>\<open>add_global_suppression("free")\<close> and
  \<^verbatim>\<open>configure<0>("free", 0, "tool")\<close> the suppression flag is down and no call through
  the slot is suppressed, yet the fifth count is one; the count drops to zero while the
  flag is raised.
\<close>

theorem get_info_suppressed_counterexample:
  "get_info (snd (construct wrapping_env 0 ''free'' 0 ''tool''
      (add_global_suppression ''free'' (engine_init 1)))) = [0, 1, 0, 0, 1]
   \<and> filter (currently_suppressed (snd (construct wrapping_env 0 ''free'' 0 ''tool''
        (add_global_suppression ''free'' (engine_init 1)))))
       (table (snd (construct wrapping_env 0 ''free'' 0 ''tool''
        (add_global_suppression ''free'' (engine_init 1))))) = []
   \<and> get_info ((snd (construct wrapping_env 0 ''free'' 0 ''tool''
        (add_global_suppression ''free'' (engine_init 1))))\<lparr>gotcha_suppression := True\<rparr>)
       = [0, 1, 0, 0, 0]"
  by code_simp

subsection \<open>What the operations leave unchanged\<close>

lemma map_update_same:
  assumes "g (f (xs ! N)) = g (xs ! N)"
  shows "map g (xs[N := f (xs ! N)]) = map g xs"
proof (cases "N < length xs")
  case True
  with assms show ?thesis by (simp add: map_update list_update_same_conv)
next
  case False
  then show ?thesis by (simp add: list_update_beyond)
qed

lemma lifecycle_emit [simp]:
  "\<not> is_destructor_call ev \<Longrightarrow> lifecycle (emit ev s) = lifecycle s"
  by (simp add: lifecycle_def emit_def destructor_calls_def)

lemma lifecycle_upd [simp]:
  "is_finalized (f (table s ! N)) = is_finalized (table s ! N)
   \<Longrightarrow> lifecycle (upd N f s) = lifecycle s"
  by (simp add: lifecycle_def upd_def destructor_calls_def map_update_same)

lemma lifecycle_auto_toggle [simp]:
  "lifecycle (snd (auto_toggle_ctor s)) = lifecycle s"
  "lifecycle (auto_toggle_dtor did s) = lifecycle s"
  by (simp_all add: lifecycle_def auto_toggle_ctor_def auto_toggle_dtor_def destructor_calls_def)

lemma lifecycle_revert [simp]: "lifecycle (snd (revert N s)) = lifecycle s"
  by (simp add: revert_def Let_def split_def)

lemma lifecycle_fill [simp]: "lifecycle (fill e N func prio tool s) = lifecycle s"
  by (simp add: fill_def Let_def)

lemma lifecycle_construct [simp]:
  "lifecycle (snd (construct e N func prio tool s)) = lifecycle s"
  by (simp add: construct_def Let_def split_def)


lemma settings_prims [simp]:
  "default_ready (emit ev s) = default_ready s"
  "default_ready (upd N f s) = default_ready s"
  "default_ready (snd (auto_toggle_ctor s)) = default_ready s"
  "default_ready (auto_toggle_dtor did s) = default_ready s"
  "suppresses (emit ev s) = suppresses s"
  "suppresses (upd N f s) = suppresses s"
  "suppresses (snd (auto_toggle_ctor s)) = suppresses s"
  "suppresses (auto_toggle_dtor did s) = suppresses s"
  by (simp_all add: emit_def upd_def auto_toggle_ctor_def auto_toggle_dtor_def)

lemma is_permitted_prims [simp]:
  "is_permitted e func (emit ev s) = is_permitted e func s"
  "is_permitted e func (upd N f s) = is_permitted e func s"
  "is_permitted e func (snd (auto_toggle_ctor s)) = is_permitted e func s"
  "is_permitted e func (auto_toggle_dtor did s) = is_permitted e func s"
  by (simp_all add: is_permitted_def emit_def upd_def auto_toggle_ctor_def
        auto_toggle_dtor_def)

lemma table_prims [simp]:
  "table (emit ev s) = table s"
  "table (upd N f s) = (table s)[N := f (table s ! N)]"
  "table (snd (auto_toggle_ctor s)) = table s"
  "table (auto_toggle_dtor did s) = table s"
  by (simp_all add: emit_def upd_def auto_toggle_ctor_def auto_toggle_dtor_def)

lemma installs_prims [simp]:
  "installs (emit ev s) = installs s @ (if is_backend_wrap ev then [ev] else [])"
  "installs (upd N f s) = installs s"
  "installs (snd (auto_toggle_ctor s)) = installs s"
  "installs (auto_toggle_dtor did s) = installs s"
  by (simp_all add: installs_def emit_def upd_def auto_toggle_ctor_def auto_toggle_dtor_def)

lemma settings_revert [simp]:
  "default_ready (snd (revert N s)) = default_ready s"
  "suppresses (snd (revert N s)) = suppresses s"
  "is_permitted e func (snd (revert N s)) = is_permitted e func s"
  by (simp_all add: revert_def Let_def split_def)

lemma installs_revert [simp]: "installs (snd (revert N s)) = installs s"
  by (simp add: revert_def Let_def split_def)

lemma table_revert:
  "table (snd (revert N s)) =
     (if filled (table s ! N) \<and> is_active (table s ! N)
      then (table s)[N := (table s ! N)\<lparr>is_active := False,
              ready := (if tool_id (table s ! N) \<in> suppresses s then False
                        else default_ready s)\<rparr>]
      else table s)"
  by (cases "N < length (table s)")
     (simp_all add: revert_def Let_def split_def list_update_beyond)

lemma settings_fill [simp]:
  "default_ready (fill e N func prio tool s) = default_ready s"
  "suppresses (fill e N func prio tool s) = suppresses s"
  "is_permitted e' func' (fill e N func prio tool s) = is_permitted e' func' s"
  by (simp_all add: fill_def Let_def)

lemma slot_fill:
  assumes "N < length (table s)"
  shows "filled (table (fill e N func prio tool s) ! N)"
    and "ready (table (fill e N func prio tool s) ! N)
           = (default_ready s \<and> func \<notin> suppresses s)"
    and "is_active (table (fill e N func prio tool s) ! N) = is_active (table s ! N)"
    and "is_finalized (table (fill e N func prio tool s) ! N) = is_finalized (table s ! N)"
    and "priority (table (fill e N func prio tool s) ! N) = prio"
    and "wrap_id (table (fill e N func prio tool s) ! N) = func"
    and "tool_id (table (fill e N func prio tool s) ! N) = make_label (demangle e func) tool"
    and "constructor (table (fill e N func prio tool s) ! N)
           = construct_closure N func prio tool"
    and "destructor (table (fill e N func prio tool s) ! N) = revert_closure N"
    and "suppression (table (fill e N func prio tool s) ! N)
           = (if func \<in> suppresses s then addr_gotcha_suppression
              else suppression (table s ! N))"
  using assms by (simp_all add: fill_def Let_def)

lemma installs_fill:
  "installs (fill e N func prio tool s)
     = installs s @ [backend_wrap N (tool_id (table (fill e N func prio tool s) ! N))]"
  by (simp add: fill_def Let_def)

lemma settings_construct [simp]:
  "default_ready (snd (construct e N func prio tool s)) = default_ready s"
  "suppresses (snd (construct e N func prio tool s)) = suppresses s"
  "is_permitted e' func' (snd (construct e N func prio tool s)) = is_permitted e' func' s"
  by (simp_all add: construct_def Let_def split_def)

lemma length_table_revert [simp]: "length (table (snd (revert N s))) = length (table s)"
  by (simp add: table_revert)

lemma length_table_fill [simp]: "length (table (fill e N func prio tool s)) = length (table s)"
  by (simp add: fill_def Let_def)

lemma length_table_construct [simp]:
  "length (table (snd (construct e N func prio tool s))) = length (table s)"
  by (simp add: construct_def Let_def split_def)

lemma installs_construct_filled:
  "filled (table s ! N) \<Longrightarrow> N < length (table s) \<Longrightarrow>
   installs (snd (construct e N func prio tool s)) = installs s"
  by (simp add: construct_def Let_def split_def)


lemma construct_unfilled:
  assumes "N < length (table s)" and "func \<noteq> []" and "is_permitted e func s"
    and "\<not> filled (table s ! N)"
  shows "fst (construct e N func prio tool s)"
    and "installs (snd (construct e N func prio tool s))
           = installs s @ [backend_wrap N (make_label (demangle e func) tool)]"
    and "filled (table (snd (construct e N func prio tool s)) ! N)"
    and "constructor (table (snd (construct e N func prio tool s)) ! N)
           = construct_closure N func prio tool"
    and "is_active (table (snd (construct e N func prio tool s)) ! N)
           = (default_ready s \<and> func \<notin> suppresses s)"
    and "ready (table (snd (construct e N func prio tool s)) ! N)
           = (default_ready s
              \<and> (func \<in> suppresses s \<longrightarrow> make_label (demangle e func) tool \<notin> suppresses s))"
    and "suppression (table (snd (construct e N func prio tool s)) ! N)
           = (if func \<in> suppresses s then addr_gotcha_suppression
              else suppression (table s ! N))"
  using assms
  by (simp_all add: construct_def Let_def split_def slot_fill table_revert installs_fill)

lemma construct_filled:
  assumes "N < length (table s)" and "func \<noteq> []" and "is_permitted e func s"
    and "filled (table s ! N)"
  shows "fst (construct e N func prio tool s)"
    and "installs (snd (construct e N func prio tool s)) = installs s"
    and "filled (table (snd (construct e N func prio tool s)) ! N)"
    and "constructor (table (snd (construct e N func prio tool s)) ! N)
           = constructor (table s ! N)"
    and "is_active (table (snd (construct e N func prio tool s)) ! N) = ready (table s ! N)"
    and "is_finalized (table (snd (construct e N func prio tool s)) ! N)
           = is_finalized (table s ! N)"
  using assms
  by (simp_all add: construct_def Let_def split_def table_revert)

lemma foldl_preserves:
  assumes "\<And>s x. g (f s x) = g s"
  shows "g (foldl f s xs) = g s"
  using assms by (induction xs arbitrary: s) simp_all

lemma lifecycle_run_closure [simp]:
  "lifecycle (run_closure e c s) = lifecycle s"
  by (cases c) (simp_all add: run_closure_def)

lemma lifecycle_gotcha_factory [simp]:
  "lifecycle (gotcha_factory e c s) = lifecycle s"
  by (simp add: gotcha_factory_def split_def)

lemma lifecycle_is_configured [simp]:
  "lifecycle (s\<lparr>is_configured := b\<rparr>) = lifecycle s"
  by (simp add: lifecycle_def destructor_calls_def)

lemma lifecycle_configure [simp]: "lifecycle (configure e s) = lifecycle s"
  by (simp add: configure_def foldl_preserves [where g = lifecycle])

lemma lifecycle_call_constructor [simp]:
  "lifecycle (call_constructor e s i) = lifecycle s"
  by (simp add: call_constructor_def)

lemma lifecycle_constructors [simp]:
  "lifecycle (foldl (call_constructor e) s is) = lifecycle s"
  by (simp add: foldl_preserves [where g = lifecycle])

lemma lifecycle_counters:
  "lifecycle (s\<lparr>started := n, thread_started := f\<rparr>)
     = (n, storage_is_finalizing s, map is_finalized (table s), destructor_calls s)"
  by (simp add: lifecycle_def destructor_calls_def)

lemma lifecycle_ready:
  "lifecycle (s\<lparr>table := map (\<lambda>d. d\<lparr>ready := r d\<rparr>) (table s)\<rparr>) = lifecycle s"
  by (simp add: lifecycle_def destructor_calls_def comp_def)

lemma lifecycle_start:
  assumes "\<not> storage_is_finalizing s"
  shows "lifecycle (start e tid s)
           = (started s + 1, False, map is_finalized (table s), destructor_calls s)"
  using assms by (simp add: start_def Let_def lifecycle_ready lifecycle_counters)

lemma pending_destructors_cong:
  assumes "map is_finalized (table s') = map is_finalized (table s)"
  shows "pending_destructors s' = pending_destructors s"
proof -
  from assms have len: "length (table s') = length (table s)"
    by (rule map_eq_imp_length_eq)
  have "\<And>i. i < length (table s) \<Longrightarrow> is_finalized (table s' ! i) = is_finalized (table s ! i)"
    using assms len by (metis nth_map)
  then show ?thesis
    unfolding pending_destructors_def len by (auto intro!: arg_cong [where f = "map destructor_call"] filter_cong)
qed

lemma lifecycle_call_destructor:
  "lifecycle (call_destructor e s i)
     = (started s, storage_is_finalizing s, map is_finalized (table s),
        destructor_calls s @ (if is_finalized (table s ! i) then [] else [destructor_call i]))"
  by (simp add: call_destructor_def)
     (simp add: lifecycle_def destructor_calls_def emit_def)


lemma lifecycleD:
  assumes "lifecycle s' = (n, f, m, d)"
  shows "started s' = n" and "storage_is_finalizing s' = f"
    and "map is_finalized (table s') = m" and "destructor_calls s' = d"
  using assms by (simp_all add: lifecycle_def)

lemma lifecycle_destructors:
  assumes "set is \<subseteq> {..<length (table s)}"
  shows "lifecycle (foldl (call_destructor e) s is)
           = (started s, storage_is_finalizing s, map is_finalized (table s),
              destructor_calls s
                @ map destructor_call (filter (\<lambda>i. \<not> is_finalized (table s ! i)) is))"
  using assms
proof (induction "is" arbitrary: s)
  case Nil
  show ?case by (simp add: lifecycle_def)
next
  case (Cons i "is")
  let ?s = "call_destructor e s i"
  note step = lifecycleD [OF lifecycle_call_destructor [of e s i]]
  have len: "length (table ?s) = length (table s)"
    using step(3) by (rule map_eq_imp_length_eq)
  have same: "is_finalized (table ?s ! j) = is_finalized (table s ! j)"
    if "j < length (table s)" for j
    using step(3) len that by (metis nth_map)
  have "set is \<subseteq> {..<length (table ?s)}"
    using Cons.prems len by simp
  from Cons.IH [OF this]
  have "lifecycle (foldl (call_destructor e) ?s is)
          = (started s, storage_is_finalizing s, map is_finalized (table s),
             (destructor_calls s @ (if is_finalized (table s ! i) then [] else [destructor_call i]))
               @ map destructor_call (filter (\<lambda>j. \<not> is_finalized (table ?s ! j)) is))"
    by (simp only: step)
  moreover have "filter (\<lambda>j. \<not> is_finalized (table ?s ! j)) is
                   = filter (\<lambda>j. \<not> is_finalized (table s ! j)) is"
    using Cons.prems by (intro filter_cong refl) (auto simp add: same)
  ultimately show ?case by simp
qed

lemma lifecycle_stop:
  "lifecycle (stop e tid s)
     = (started s - 1, storage_is_finalizing s, map is_finalized (table s),
        destructor_calls s @ (if started s = 1 then pending_destructors s else []))"
proof -
  define s1 where "s1 = s\<lparr>started := started s - 1,
                          thread_started := (thread_started s)(tid := thread_started s tid - 1)\<rparr>"
  define s2 where "s2 = (if thread_started s tid - 1 = 0
                         then s1\<lparr>table := map (\<lambda>d. d\<lparr>ready := False\<rparr>) (table s1)\<rparr> else s1)"
  have l2: "lifecycle s2
              = (started s - 1, storage_is_finalizing s, map is_finalized (table s),
                 destructor_calls s)"
  proof -
    have "lifecycle s1
            = (started s - 1, storage_is_finalizing s, map is_finalized (table s),
               destructor_calls s)"
      by (simp add: s1_def lifecycle_counters)
    then show ?thesis by (simp add: s2_def lifecycle_ready)
  qed
  have stop: "stop e tid s
                = (if started s - 1 = 0
                   then foldl (call_destructor e) s2 [0..<length (table s2)] else s2)"
    by (simp add: stop_def Let_def s2_def s1_def)
  show ?thesis
  proof (cases "started s = 1")
    case True
    have "lifecycle (foldl (call_destructor e) s2 [0..<length (table s2)])
            = (started s2, storage_is_finalizing s2, map is_finalized (table s2),
               destructor_calls s2 @ pending_destructors s2)"
      unfolding pending_destructors_def by (rule lifecycle_destructors) auto
    also have "pending_destructors s2 = pending_destructors s"
      using lifecycleD(3) [OF l2] by (rule pending_destructors_cong)
    finally show ?thesis
      using True stop by (simp add: lifecycleD [OF l2])
  next
    case False
    with stop l2 show ?thesis by simp
  qed
qed

lemma lifecycle_starts:
  assumes "\<not> storage_is_finalizing s"
  shows "lifecycle (starts e tids s)
           = (started s + int (length tids), False, map is_finalized (table s),
              destructor_calls s)"
  using assms
proof (induction tids arbitrary: s)
  case Nil
  then show ?case by (simp add: starts_def lifecycle_def)
next
  case (Cons tid tids)
  note step = lifecycleD [OF lifecycle_start [OF Cons.prems, of e tid]]
  from step(2) have "\<not> storage_is_finalizing (start e tid s)" by simp
  from Cons.IH [OF this] show ?case
    by (simp add: starts_def step)
qed

lemma lifecycle_stops_partial:
  assumes "int (length tids) < started s"
  shows "lifecycle (stops e tids s)
           = (started s - int (length tids), storage_is_finalizing s,
              map is_finalized (table s), destructor_calls s)"
  using assms
proof (induction tids arbitrary: s)
  case Nil
  then show ?case by (simp add: stops_def lifecycle_def)
next
  case (Cons tid tids)
  from Cons.prems have ne: "started s \<noteq> 1" by simp
  have l: "lifecycle (stop e tid s)
             = (started s - 1, storage_is_finalizing s, map is_finalized (table s),
                destructor_calls s)"
    using ne by (simp add: lifecycle_stop)
  note step = lifecycleD [OF l]
  from Cons.prems step(1) have "int (length tids) < started (stop e tid s)" by simp
  from Cons.IH [OF this] show ?case
    by (simp add: stops_def step)
qed

lemma stops_snoc: "stops e (tids @ [tid]) s = stop e tid (stops e tids s)"
  by (simp add: stops_def)

lemma lifecycle_stops_all:
  assumes "started s = int (length tids)" and "tids \<noteq> []"
  shows "lifecycle (stops e tids s)
           = (0, storage_is_finalizing s, map is_finalized (table s),
              destructor_calls s @ pending_destructors s)"
proof -
  from assms(2) have split: "tids = butlast tids @ [last tids]" by simp
  have "int (length (butlast tids)) < started s"
    using assms by simp
  note part = lifecycleD [OF lifecycle_stops_partial [OF this, of e]]
  have one: "started (stops e (butlast tids) s) = 1"
    using part(1) assms by (simp add: of_nat_diff Suc_leI)
  have "pending_destructors (stops e (butlast tids) s) = pending_destructors s"
    using part(3) by (rule pending_destructors_cong)
  then have "lifecycle (stop e (last tids) (stops e (butlast tids) s))
          = (0, storage_is_finalizing s, map is_finalized (table s),
             destructor_calls s @ pending_destructors s)"
    by (simp add: lifecycle_stop one part)
  then show ?thesis
    using stops_snoc [of e "butlast tids" "last tids" s] split by simp
qed

lemma construct_keeps_finalized:
  assumes "N < length (table s)"
  shows "is_finalized (table (snd (construct e M func prio tool s)) ! N)
           = is_finalized (table s ! N)"
proof -
  have "map is_finalized (table (snd (construct e M func prio tool s)))
          = map is_finalized (table s)"
    using lifecycle_construct [of e M func prio tool s] by (simp add: lifecycle_def)
  with assms show ?thesis
    by (metis length_table_construct nth_map)
qed

subsection \<open>Configuring a slot\<close>

text \<open>
  C1, as the code has it. On a slot that is not filled yet, with a symbol that is not empty
  and that the filter permits, two calls of \<^verbatim>\<open>construct\<close> with the same arguments both
  return true and install the binding once: the first call makes the one
  \<^verbatim>\<open>backend::gotcha::wrap\<close> call and records the closure, the second makes none and leaves
  the closure as it is. After the first call the slot is active exactly when
  \<^verbatim>\<open>get_default_ready()\<close> is true and the symbol is not globally suppressed, and then it is
  active after the second call too; when \<^verbatim>\<open>get_default_ready()\<close> is false, as it is
  initially, \<^verbatim>\<open>construct\<close> reverts the slot and it is inactive after each call.
\<close>

theorem construct_twice:
  assumes "N < length (table s)" and "func \<noteq> []" and "is_permitted e func s"
    and "\<not> filled (table s ! N)"
  shows "fst (construct e N func prio tool s)
       \<and> fst (construct e N func prio tool (snd (construct e N func prio tool s)))
       \<and> installs (snd (construct e N func prio tool s))
           = installs s @ [backend_wrap N (make_label (demangle e func) tool)]
       \<and> installs (snd (construct e N func prio tool (snd (construct e N func prio tool s))))
           = installs (snd (construct e N func prio tool s))
       \<and> constructor (table (snd (construct e N func prio tool s)) ! N)
           = construct_closure N func prio tool
       \<and> constructor (table (snd (construct e N func prio tool
                                     (snd (construct e N func prio tool s)))) ! N)
           = construct_closure N func prio tool
       \<and> is_active (table (snd (construct e N func prio tool s)) ! N)
           = (default_ready s \<and> func \<notin> suppresses s)
       \<and> (default_ready s \<and> func \<notin> suppresses s \<longrightarrow>
            is_active (table (snd (construct e N func prio tool
                                     (snd (construct e N func prio tool s)))) ! N))
       \<and> (\<not> default_ready s \<longrightarrow>
            \<not> is_active (table (snd (construct e N func prio tool
                                       (snd (construct e N func prio tool s)))) ! N))"
proof -
  let ?s1 = "snd (construct e N func prio tool s)"
  note first = construct_unfilled [OF assms, of prio tool]
  have len: "N < length (table ?s1)" using assms(1) by simp
  have perm: "is_permitted e func ?s1" using assms(3) by simp
  note second = construct_filled [OF len assms(2) perm first(3), of prio tool]
  show ?thesis
    using first second by simp
qed

theorem construct_twice_witness:
  "installs (snd (construct wrapping_env 0 ''malloc'' 0 ''tool''
      (snd (construct wrapping_env 0 ''malloc'' 0 ''tool''
         ((engine_init 1)\<lparr>default_ready := True\<rparr>)))))
     = [backend_wrap 0 ''tool/malloc'']
   \<and> is_active (table (snd (construct wrapping_env 0 ''malloc'' 0 ''tool''
         ((engine_init 1)\<lparr>default_ready := True\<rparr>))) ! 0)
   \<and> is_active (table (snd (construct wrapping_env 0 ''malloc'' 0 ''tool''
      (snd (construct wrapping_env 0 ''malloc'' 0 ''tool''
         ((engine_init 1)\<lparr>default_ready := True\<rparr>))))) ! 0)"
proof -
  let ?s = "(engine_init 1)\<lparr>default_ready := True\<rparr>"
  have h: "0 < length (table ?s)" "''malloc'' \<noteq> []"
    "is_permitted wrapping_env ''malloc'' ?s" "\<not> filled (table ?s ! 0)"
    by code_simp+
  have l: "make_label (demangle wrapping_env ''malloc'') ''tool'' = ''tool/malloc''"
    by code_simp
  have i: "installs ?s = []" "default_ready ?s" "''malloc'' \<notin> suppresses ?s"
    by code_simp+
  from construct_twice [OF h, of 0 "''tool''"] show ?thesis
    by (simp only: l i) simp
qed

text \<open>
  C1 as stated fails on a new engine, where \<^verbatim>\<open>get_default_ready()\<close> is false: the first
  call fills the slot, installs the binding and returns true, and leaves the slot inactive.
\<close>

theorem construct_default_not_ready_counterexample:
  "fst (construct wrapping_env 0 ''malloc'' 0 ''tool'' (engine_init 1))
   \<and> installs (snd (construct wrapping_env 0 ''malloc'' 0 ''tool'' (engine_init 1)))
       = [backend_wrap 0 ''tool/malloc'']
   \<and> \<not> is_active (table (snd (construct wrapping_env 0 ''malloc'' 0 ''tool''
                                  (engine_init 1))) ! 0)"
  by code_simp

text \<open>
  C6, what the code does. When \<^verbatim>\<open>construct\<close> fills a slot with a globally suppressed
  symbol it sets the suppression reference and \<^verbatim>\<open>ready = false\<close>, and then, the slot not
  being ready, calls \<^verbatim>\<open>revert\<close>, which looks the slot's label (\<^verbatim>\<open>tool_id\<close>) up in the
  suppression registry, not the symbol. So the slot is left ready when
  \<^verbatim>\<open>get_default_ready()\<close> is true and the label is not itself registered, as with the
  symbol \<^verbatim>\<open>free\<close> under the tool label \<^verbatim>\<open>tool\<close>.
\<close>

theorem construct_suppressed_symbol:
  assumes "N < length (table s)" and "func \<noteq> []" and "is_permitted e func s"
    and "\<not> filled (table s ! N)" and "func \<in> suppresses s"
  shows "filled (table (snd (construct e N func prio tool s)) ! N)
       \<and> suppression (table (snd (construct e N func prio tool s)) ! N)
           = addr_gotcha_suppression
       \<and> ready (table (snd (construct e N func prio tool s)) ! N)
           = (default_ready s \<and> make_label (demangle e func) tool \<notin> suppresses s)"
  using construct_unfilled [OF assms(1-4), of prio tool] assms(5) by simp

theorem construct_suppressed_symbol_witness:
  "filled (table (snd (construct wrapping_env 0 ''free'' 0 ''tool''
      (add_global_suppression ''free'' ((engine_init 1)\<lparr>default_ready := True\<rparr>)))) ! 0)
   \<and> suppression (table (snd (construct wrapping_env 0 ''free'' 0 ''tool''
      (add_global_suppression ''free'' ((engine_init 1)\<lparr>default_ready := True\<rparr>)))) ! 0)
       = addr_gotcha_suppression
   \<and> ready (table (snd (construct wrapping_env 0 ''free'' 0 ''tool''
      (add_global_suppression ''free'' ((engine_init 1)\<lparr>default_ready := True\<rparr>)))) ! 0)"
proof -
  let ?s = "add_global_suppression ''free'' ((engine_init 1)\<lparr>default_ready := True\<rparr>)"
  have h: "0 < length (table ?s)" "''free'' \<noteq> []"
    "is_permitted wrapping_env ''free'' ?s" "\<not> filled (table ?s ! 0)"
    "''free'' \<in> suppresses ?s"
    by code_simp+
  have r: "default_ready ?s"
    "make_label (demangle wrapping_env ''free'') ''tool'' \<notin> suppresses ?s"
    by code_simp+
  from construct_suppressed_symbol [OF h, of 0 "''tool''"] r show ?thesis
    by simp
qed

text \<open>
  C4, what the code does. \<^verbatim>\<open>construct\<close> does not read \<^verbatim>\<open>is_finalized\<close>: on a finalized
  slot that is filled it sets \<^verbatim>\<open>is_active\<close> and keeps it set when the slot is ready, and
  a finalized slot that is not filled it fills and installs. After
  \<^verbatim>\<open>configure; start; disable\<close> the slot is finalized, inactive and ready, and the same
  \<^verbatim>\<open>configure\<close> call makes it active again.
\<close>

theorem construct_finalized_slot:
  assumes "N < length (table s)" and "func \<noteq> []" and "is_permitted e func s"
    and "is_finalized (table s ! N)"
  shows "is_finalized (table (snd (construct e N func prio tool s)) ! N)
       \<and> (filled (table s ! N) \<longrightarrow>
            is_active (table (snd (construct e N func prio tool s)) ! N)
              = ready (table s ! N))
       \<and> (\<not> filled (table s ! N) \<longrightarrow>
            filled (table (snd (construct e N func prio tool s)) ! N)
            \<and> installs (snd (construct e N func prio tool s))
                = installs s @ [backend_wrap N (make_label (demangle e func) tool)])"
  using construct_keeps_finalized [OF assms(1), of e N func prio tool] assms(4)
    construct_filled [OF assms(1-3), of prio tool]
    construct_unfilled [OF assms(1-3), of prio tool]
  by simp

theorem construct_finalized_slot_witness:
  "is_finalized (table (disable wrapping_env (start wrapping_env 0
      (snd (construct wrapping_env 0 ''malloc'' 0 ''tool'' (engine_init 1))))) ! 0)
   \<and> \<not> is_active (table (disable wrapping_env (start wrapping_env 0
      (snd (construct wrapping_env 0 ''malloc'' 0 ''tool'' (engine_init 1))))) ! 0)
   \<and> is_finalized (table (snd (construct wrapping_env 0 ''malloc'' 0 ''tool''
      (disable wrapping_env (start wrapping_env 0
        (snd (construct wrapping_env 0 ''malloc'' 0 ''tool'' (engine_init 1))))))) ! 0)
   \<and> is_active (table (snd (construct wrapping_env 0 ''malloc'' 0 ''tool''
      (disable wrapping_env (start wrapping_env 0
        (snd (construct wrapping_env 0 ''malloc'' 0 ''tool'' (engine_init 1))))))) ! 0)"
proof -
  let ?s = "disable wrapping_env (start wrapping_env 0
      (snd (construct wrapping_env 0 ''malloc'' 0 ''tool'' (engine_init 1))))"
  have h: "0 < length (table ?s)" "''malloc'' \<noteq> []"
    "is_permitted wrapping_env ''malloc'' ?s" "is_finalized (table ?s ! 0)"
    by code_simp+
  have r: "filled (table ?s ! 0)" "ready (table ?s ! 0)" "\<not> is_active (table ?s ! 0)"
    by code_simp+
  from construct_finalized_slot [OF h, of 0 "''tool''"] r h(4) show ?thesis
    by simp
qed

subsection \<open>Nested activation\<close>

text \<open>
  C3, as the code has it. While the storage is not finalizing, and from a global counter
  of zero, \<open>N \<ge> 1\<close> calls of \<^verbatim>\<open>start()\<close> followed by \<open>N\<close> calls of \<^verbatim>\<open>stop()\<close>, on any
  threads, bring the counter back to zero; the destructor closure of each slot that is not
  finalized is called once, those of finalized slots are not called, and all these calls
  are made by the last \<^verbatim>\<open>stop()\<close>: none is made before it. No slot becomes finalized or
  stops being so on the way.
\<close>

theorem start_stop_balanced:
  assumes "\<not> storage_is_finalizing s" and "started s = 0"
    and "ts \<noteq> []" and "length us = length ts"
  shows "started (stops e us (starts e ts s)) = 0
       \<and> destructor_calls (stops e us (starts e ts s))
           = destructor_calls s @ pending_destructors s
       \<and> destructor_calls (stops e (butlast us) (starts e ts s)) = destructor_calls s
       \<and> map is_finalized (table (stops e us (starts e ts s))) = map is_finalized (table s)"
proof -
  note st = lifecycleD [OF lifecycle_starts [OF assms(1), of e ts]]
  have full: "started (starts e ts s) = int (length us)" and ne: "us \<noteq> []"
    using st(1) assms by auto
  note all = lifecycleD [OF lifecycle_stops_all [OF full ne, of e]]
  have "pending_destructors (starts e ts s) = pending_destructors s"
    using st(3) by (rule pending_destructors_cong)
  moreover have "int (length (butlast us)) < started (starts e ts s)"
    using full ne by simp
  note part = lifecycleD [OF lifecycle_stops_partial [OF this, of e]]
  ultimately show ?thesis
    using all st part by simp
qed

theorem start_stop_balanced_witness:
  "started (stops wrapping_env [1, 0] (starts wrapping_env [0, 1]
      (snd (construct wrapping_env 0 ''malloc'' 0 ''tool'' (engine_init 2))))) = 0
   \<and> destructor_calls (stops wrapping_env [1, 0] (starts wrapping_env [0, 1]
      (snd (construct wrapping_env 0 ''malloc'' 0 ''tool'' (engine_init 2)))))
       = [destructor_call 0, destructor_call 1]
   \<and> destructor_calls (stops wrapping_env [1] (starts wrapping_env [0, 1]
      (snd (construct wrapping_env 0 ''malloc'' 0 ''tool'' (engine_init 2))))) = []"
proof -
  let ?s = "snd (construct wrapping_env 0 ''malloc'' 0 ''tool'' (engine_init 2))"
  have h: "\<not> storage_is_finalizing ?s" "started ?s = 0" "[0, 1 :: nat] \<noteq> []"
    "length [1, 0 :: nat] = length [0, 1 :: nat]"
    by code_simp+
  have r: "destructor_calls ?s = []"
    "pending_destructors ?s = [destructor_call 0, destructor_call 1]"
    by code_simp+
  from start_stop_balanced [OF h, of wrapping_env] r show ?thesis
    by simp
qed

text \<open>
  C3 as stated fails while the storage is finalizing: \<^verbatim>\<open>start()\<close> returns at once,
  \<^verbatim>\<open>stop()\<close> still decrements, the counter ends at \<open>-1\<close>, and no destructor is called.
\<close>

theorem start_while_finalizing_counterexample:
  "started ((engine_init 1)\<lparr>storage_is_finalizing := True\<rparr>) = 0
   \<and> started (stops wrapping_env [0] (starts wrapping_env [0]
        ((engine_init 1)\<lparr>storage_is_finalizing := True\<rparr>))) = - 1
   \<and> destructor_calls (stops wrapping_env [0] (starts wrapping_env [0]
        ((engine_init 1)\<lparr>storage_is_finalizing := True\<rparr>))) = []
   \<and> \<not> is_finalized (table (stops wrapping_env [0] (starts wrapping_env [0]
        ((engine_init 1)\<lparr>storage_is_finalizing := True\<rparr>))) ! 0)"
  by code_simp

end
